theory Spec2Isabelle
  imports Main "HOL-Library.Word" "HOL-Library.Multiset"
begin

section \<open>Data model\<close>

text \<open>
  The repository is a DNS forwarding proxy in Go with three packages: \<^verbatim>\<open>upstream\<close>
  (the exchange engine and its two adapters), \<^verbatim>\<open>device\<close> (the device index) and
  \<^verbatim>\<open>server\<close> (the request router). The embedding follows the later of the two
  revisions of the upstream package (POST with a binary body, two prebuilt HTTP clients).
\<close>

type_synonym bytes = "8 word list"

text \<open>
  \<^verbatim>\<open>dns.Msg\<close> of the DNS library, cut down to the header fields the code and
  \<^verbatim>\<open>SetRcode\<close> touch, with the sections kept as opaque strings.
\<close>

record Msg =
  MsgId :: "16 word"
  Response :: bool
  Opcode :: nat
  RecursionDesired :: bool
  CheckingDisabled :: bool
  Rcode :: nat
  Question :: "string list"
  Answer :: "string list"

text \<open>
  Go errors as values. The three \<^verbatim>\<open>fmt.Errorf\<close> errors of the upstream package have a
  constructor each; \<open>ErrContext\<close> is \<^verbatim>\<open>ctx.Err()\<close>; \<open>ErrLibrary\<close> is any error
  returned by a library call.
\<close>

datatype error =
    ErrNoUpstreams
  | ErrAllUpstreamsFailed
  | ErrDoHStatus int
  | ErrContext
  | ErrLibrary string

text \<open>
  The Go pair \<^verbatim>\<open>(*dns.Msg, error)\<close>: each component may be nil on its own.
\<close>

type_synonym result = "Msg option \<times> error option"

text \<open>
  \<^verbatim>\<open>context.Context\<close>: the code reads the deadline (in \<^verbatim>\<open>queryUDP\<close>) and waits on
  \<^verbatim>\<open>Done()\<close>. The deadline is an abstract instant.
\<close>

record Context =
  Deadline :: "nat option"

definition Background :: Context where
  "Background = \<lparr>Deadline = None\<rparr>"

datatype timeout = UntilDeadline nat | FiveSeconds

datatype httpClient = httpClientVerify | httpClientInsecure

record httpResponse =
  StatusCode :: int
  Body :: "error + bytes"

text \<open>
  The library calls of the upstream package, taken as parameters. The network is not
  deterministic, so the two calls that reach it take the number of the attempt (the
  position of the upstream in the list) as well. Every call returns: the HTTP clients
  carry a five-second timeout and \<^verbatim>\<open>queryUDP\<close> sets one on the DNS client.
  The calls read the query and do not write it.
\<close>

record lib =
  Pack :: "Msg \<Rightarrow> error + bytes"
  NewRequestWithContext :: "string \<Rightarrow> error option"
  Do :: "nat \<Rightarrow> httpClient \<Rightarrow> string \<Rightarrow> bytes \<Rightarrow> error + httpResponse"
  Unpack :: "bytes \<Rightarrow> error + Msg"
  ExchangeContext :: "nat \<Rightarrow> timeout \<Rightarrow> Msg \<Rightarrow> string \<Rightarrow> result"

text \<open>
  The operations a call performs, in order: what the adapters do on the network and on
  the response body is observable in the model through this log.
\<close>

datatype op =
    OpPack
  | OpNewRequest string
  | OpDo httpClient string
  | OpReadAll
  | OpUnpack
  | OpCloseBody
  | OpExchangeContext timeout string

fun is_network_call :: "op \<Rightarrow> bool" where
  "is_network_call (OpDo c url) = True"
| "is_network_call OpReadAll = True"
| "is_network_call (OpExchangeContext t addr) = True"
| "is_network_call OpPack = False"
| "is_network_call (OpNewRequest url) = False"
| "is_network_call OpUnpack = False"
| "is_network_call OpCloseBody = False"

section \<open>Strings\<close>

definition HasPrefix :: "string \<Rightarrow> string \<Rightarrow> bool" where
  "HasPrefix s p = (take (length p) s = p)"

fun Contains :: "string \<Rightarrow> string \<Rightarrow> bool" where
  "Contains [] substr = (substr = [])"
| "Contains (c # cs) substr = (HasPrefix (c # cs) substr \<or> Contains cs substr)"

section \<open>Transport adapters\<close>

text \<open>
  \<^verbatim>\<open>queryUDP\<close>: the timeout is the time left to the deadline when the context has
  one, five seconds otherwise; then one exchange through the DNS client.
\<close>

definition queryUDP :: "lib \<Rightarrow> Context \<Rightarrow> nat \<Rightarrow> Msg \<Rightarrow> string \<Rightarrow> result \<times> op list" where
  "queryUDP l ctx i req addr =
     (let t = (case Deadline ctx of Some d \<Rightarrow> UntilDeadline d | None \<Rightarrow> FiveSeconds)
      in (ExchangeContext l i t req addr, [OpExchangeContext t addr]))"

text \<open>
  \<^verbatim>\<open>queryDoH\<close>: pack the query, build the POST request, pick the prebuilt client,
  send; the deferred \<^verbatim>\<open>resp.Body.Close()\<close> runs on every return after a response
  was obtained. A status other than 200 returns before the body is read.
\<close>

definition queryDoH :: "lib \<Rightarrow> Context \<Rightarrow> nat \<Rightarrow> Msg \<Rightarrow> string \<Rightarrow> bool \<Rightarrow> result \<times> op list" where
  "queryDoH l ctx i req urlStr tlsVerify =
     (case Pack l req of
        Inl e \<Rightarrow> ((None, Some e), [OpPack])
      | Inr packed \<Rightarrow>
          (case NewRequestWithContext l urlStr of
             Some e \<Rightarrow> ((None, Some e), [OpPack, OpNewRequest urlStr])
           | None \<Rightarrow>
               (let client = (if \<not> tlsVerify then httpClientInsecure else httpClientVerify);
                    sent = [OpPack, OpNewRequest urlStr, OpDo client urlStr]
                in case Do l i client urlStr packed of
                     Inl e \<Rightarrow> ((None, Some e), sent)
                   | Inr resp \<Rightarrow>
                       if StatusCode resp \<noteq> 200
                       then ((None, Some (ErrDoHStatus (StatusCode resp))), sent @ [OpCloseBody])
                       else (case Body resp of
                               Inl e \<Rightarrow> ((None, Some e), sent @ [OpReadAll, OpCloseBody])
                             | Inr body \<Rightarrow>
                                 (case Unpack l body of
                                    Inl e \<Rightarrow>
                                      ((None, Some e), sent @ [OpReadAll, OpUnpack, OpCloseBody])
                                  | Inr m \<Rightarrow>
                                      ((Some m, None), sent @ [OpReadAll, OpUnpack, OpCloseBody]))))))"

section \<open>Exchange engine\<close>

text \<open>
  The memory \<^verbatim>\<open>Exchange\<close> is handed: the elements of the caller's \<^verbatim>\<open>upstreams\<close>
  slice and the message behind the \<^verbatim>\<open>req\<close> pointer. Every function of the engine
  takes the store and returns it, so that a write would show.
\<close>

record store =
  upstreams :: "string list"
  req :: Msg

text \<open>The locals of one attempt goroutine when it reaches its \<^verbatim>\<open>select\<close>.\<close>

record frame =
  u :: string
  msg :: "Msg option"
  err :: "error option"

text \<open>
  The body of the goroutine started for the upstream at position \<open>i\<close>, up to its
  \<^verbatim>\<open>select\<close>. The parameter \<open>u0\<close> is the goroutine's own copy of the slice element;
  the assignment \<^verbatim>\<open>u = u + ":53"\<close> changes the local only.
\<close>

definition attempt :: "lib \<Rightarrow> Context \<Rightarrow> bool \<Rightarrow> nat \<Rightarrow> string \<Rightarrow> store \<Rightarrow> (frame \<times> op list) \<times> store" where
  "attempt l ctx tlsVerify i u0 s =
     (if HasPrefix u0 ''https://'' \<or> HasPrefix u0 ''http://''
      then (let (r, ops) = queryDoH l ctx i (req s) u0 tlsVerify
            in ((\<lparr>u = u0, msg = fst r, err = snd r\<rparr>, ops), s))
      else (let u1 = (if \<not> Contains u0 '':'' then u0 @ '':53'' else u0);
                (r, ops) = queryUDP l ctx i (req s) u1
            in ((\<lparr>u = u1, msg = fst r, err = snd r\<rparr>, ops), s)))"

text \<open>
  The \<^verbatim>\<open>for _, u := range upstreams\<close> loop: one goroutine per element, numbered from
  \<open>i\<close>. It returns the frames of the goroutines in list order, the operations they
  perform and the store.
\<close>

fun spawn :: "lib \<Rightarrow> Context \<Rightarrow> bool \<Rightarrow> nat \<Rightarrow> string list \<Rightarrow> store \<Rightarrow> (frame list \<times> op list) \<times> store" where
  "spawn l ctx tlsVerify i [] s = (([], []), s)"
| "spawn l ctx tlsVerify i (u0 # rest) s =
     (let ((f, ops), s1) = attempt l ctx tlsVerify i u0 s;
          ((fs, opss), s2) = spawn l ctx tlsVerify (Suc i) rest s1
      in ((f # fs, ops @ opss), s2))"

text \<open>
  The receive loop. Which case each \<^verbatim>\<open>select\<close> takes is decided by the scheduler and
  the network, so the sequence of cases taken is a parameter: \<open>Received r\<close> is a value
  read from \<^verbatim>\<open>resultChan\<close>, \<open>CtxDone\<close> is the \<^verbatim>\<open>ctx.Done()\<close> case, and the end of
  the sequence is the read from the closed, drained channel (\<^verbatim>\<open>ok = false\<close>).
\<close>

datatype event = Received result | CtxDone

fun recvLoop :: "error option \<Rightarrow> event list \<Rightarrow> result" where
  "recvLoop lastErr [] =
     (if lastErr \<noteq> None then (None, lastErr) else (None, Some ErrAllUpstreamsFailed))"
| "recvLoop lastErr (Received res # evs) =
     (if snd res = None \<and> fst res \<noteq> None then (fst res, None)
      else recvLoop (if snd res \<noteq> None then snd res else lastErr) evs)"
| "recvLoop lastErr (CtxDone # evs) = (None, Some ErrContext)"

text \<open>
  A schedule names the case of each \<^verbatim>\<open>select\<close>: \<open>Recv i\<close> receives what goroutine
  \<open>i\<close> sent. The channel has room for every result, so a goroutine's send never blocks,
  and while the context is not done every goroutine sends.
\<close>

datatype pick = Recv nat | Done

fun event_of :: "frame list \<Rightarrow> pick \<Rightarrow> event" where
  "event_of fs (Recv i) = Received (msg (fs ! i), err (fs ! i))"
| "event_of fs Done = CtxDone"

definition Exchange :: "lib \<Rightarrow> pick list \<Rightarrow> Context \<Rightarrow> store \<Rightarrow> bool \<Rightarrow> (result \<times> op list) \<times> store" where
  "Exchange l sched ctx s tlsVerify =
     (if length (upstreams s) = 0 then (((None, Some ErrNoUpstreams), []), s)
      else (let ((fs, ops), s1) = spawn l ctx tlsVerify 0 (upstreams s) s
            in ((recvLoop None (map (event_of fs) sched), ops), s1)))"

section \<open>Device index\<close>

text \<open>The configuration as the YAML loader hands it over (package \<^verbatim>\<open>config\<close>).\<close>

record ConfigDevice =
  Name_c :: string
  IPs :: "string list"
  Upstreams_c :: "string list"
  TLSVerify_c :: "bool option"

record Config =
  Upstreams_global :: "string list"
  Devices :: "ConfigDevice list"

text \<open>The policy of a device (package \<^verbatim>\<open>device\<close>).\<close>

record Device =
  Name :: string
  Upstreams :: "string list"
  TLSVerify :: bool

record Manager =
  ipMap :: "string \<rightharpoonup> Device"

text \<open>
  The calls into Go's \<^verbatim>\<open>net\<close> package, taken as parameters: \<^verbatim>\<open>net.ParseIP\<close>
  (nil, here \<open>None\<close>, when the text is no IP address), \<^verbatim>\<open>IP.String\<close> (the canonical
  text of an address) and \<^verbatim>\<open>net.SplitHostPort\<close> (\<open>None\<close> when it returns an error).
  \<^verbatim>\<open>net.IP\<close> is a byte slice.
\<close>

record netlib =
  ParseIP :: "string \<Rightarrow> bytes option"
  IPString :: "bytes \<Rightarrow> string"
  SplitHostPort :: "string \<Rightarrow> (string \<times> string) option"

text \<open>The first half of the body of the loop over devices: the policy of device \<open>d\<close>.\<close>

definition newDevice :: "ConfigDevice \<Rightarrow> Device" where
  "newDevice d =
     (let tlsVerify = (case TLSVerify_c d of Some b \<Rightarrow> b | None \<Rightarrow> True)
      in \<lparr>Name = Name_c d, Upstreams = Upstreams_c d, TLSVerify = tlsVerify\<rparr>)"

text \<open>The inner loop over the IP strings of one device: unparsable strings are skipped.\<close>

fun addIPs :: "netlib \<Rightarrow> Device \<Rightarrow> string list \<Rightarrow> (string \<rightharpoonup> Device) \<Rightarrow> (string \<rightharpoonup> Device)" where
  "addIPs nl dev [] m = m"
| "addIPs nl dev (ipStr # rest) m =
     (case ParseIP nl ipStr of
        None \<Rightarrow> addIPs nl dev rest m
      | Some ip \<Rightarrow> addIPs nl dev rest (m(IPString nl ip \<mapsto> dev)))"

fun addDevices :: "netlib \<Rightarrow> ConfigDevice list \<Rightarrow> (string \<rightharpoonup> Device) \<Rightarrow> (string \<rightharpoonup> Device)" where
  "addDevices nl [] m = m"
| "addDevices nl (d # ds) m = addDevices nl ds (addIPs nl (newDevice d) (IPs d) m)"

definition NewManager :: "netlib \<Rightarrow> Config \<Rightarrow> Manager" where
  "NewManager nl cfg = \<lparr>ipMap = addDevices nl (Devices cfg) Map.empty\<rparr>"

definition Get :: "netlib \<Rightarrow> Manager \<Rightarrow> bytes option \<Rightarrow> Device option" where
  "Get nl m ip = (case ip of None \<Rightarrow> None | Some a \<Rightarrow> ipMap m (IPString nl a))"

section \<open>Request router\<close>

definition RcodeServerFailure :: nat where
  "RcodeServerFailure = 2"

definition OpcodeQuery :: nat where
  "OpcodeQuery = 0"

text \<open>\<^verbatim>\<open>new(dns.Msg)\<close>: the zero message.\<close>

definition newMsg :: Msg where
  "newMsg = \<lparr>MsgId = 0, Response = False, Opcode = 0, RecursionDesired = False,
     CheckingDisabled = False, Rcode = 0, Question = [], Answer = []\<rparr>"

text \<open>
  Modelled from the spec: \<^verbatim>\<open>SetRcode\<close> is a method of the DNS library's message type,
  which is not part of the repository's sources. The spec has the router ``synthesize a
  response carrying the original transaction identifier and a server-failure status
  code''; the library builds a reply to the request (identifier, opcode, the RD and CD
  bits of a query, the first question) and sets the response code.
\<close>

definition SetRcode :: "Msg \<Rightarrow> Msg \<Rightarrow> nat \<Rightarrow> Msg" where
  "SetRcode m request rcode =
     (let m1 = m\<lparr>MsgId := MsgId request, Response := True, Opcode := Opcode request\<rparr>;
          m2 = (if Opcode m1 = OpcodeQuery
                then m1\<lparr>RecursionDesired := RecursionDesired request,
                        CheckingDisabled := CheckingDisabled request\<rparr>
                else m1);
          m3 = (if length (Question request) > 0
                then m2\<lparr>Question := [hd (Question request)]\<rparr> else m2)
      in m3\<lparr>Rcode := rcode\<rparr>)"

record Server =
  cfg :: Config
  devManager :: Manager

text \<open>
  What \<^verbatim>\<open>ServeDNS\<close> does with the response writer: nothing (the query is dropped),
  one \<^verbatim>\<open>WriteMsg\<close>, or a nil dereference at \<^verbatim>\<open>resp.Id = r.Id\<close> should the engine
  ever return neither a message nor an error.
\<close>

datatype served = NoResponse | WriteMsg Msg | NilDereference

text \<open>The block under ``Determine Upstreams'' of \<^verbatim>\<open>ServeDNS\<close>.\<close>

definition determineUpstreams :: "netlib \<Rightarrow> Server \<Rightarrow> bytes option \<Rightarrow> string list \<times> bool" where
  "determineUpstreams nl srv clientIP =
     (case Get nl (devManager srv) clientIP of
        Some dev \<Rightarrow> (Upstreams dev, TLSVerify dev)
      | None \<Rightarrow> (Upstreams_global (cfg srv), True))"

text \<open>
  \<^verbatim>\<open>ServeDNS\<close>. The context is \<^verbatim>\<open>context.Background()\<close>, which is never done, so
  the receive loop of the engine only ever receives: its schedule is the order \<open>order\<close>
  in which the attempts deliver. \<open>remoteAddr\<close> is the text of \<^verbatim>\<open>w.RemoteAddr()\<close>.
\<close>

definition ServeDNS :: "netlib \<Rightarrow> lib \<Rightarrow> Server \<Rightarrow> nat list \<Rightarrow> string \<Rightarrow> Msg \<Rightarrow> served \<times> op list" where
  "ServeDNS nl l srv order remoteAddr r =
     (case SplitHostPort nl remoteAddr of
        None \<Rightarrow> (NoResponse, [])
      | Some (ipStr, port) \<Rightarrow>
          (let clientIP = ParseIP nl ipStr;
               (ups, tlsVerify) = determineUpstreams nl srv clientIP;
               ((res, ops), s) =
                  Exchange l (map Recv order) Background \<lparr>upstreams = ups, req = r\<rparr> tlsVerify
           in case res of
                (resp, Some e) \<Rightarrow> (WriteMsg (SetRcode newMsg (req s) RcodeServerFailure), ops)
              | (Some resp, None) \<Rightarrow> (WriteMsg (resp\<lparr>MsgId := MsgId (req s)\<rparr>), ops)
              | (None, None) \<Rightarrow> (NilDereference, ops)))"

section \<open>Notions the properties are stated with\<close>

text \<open>
  What goroutine \<open>i\<close> of a call offers to \<^verbatim>\<open>resultChan\<close>: the \<^verbatim>\<open>msg\<close> and
  \<^verbatim>\<open>err\<close> of its frame.
\<close>

definition attemptFrame :: "lib \<Rightarrow> Context \<Rightarrow> bool \<Rightarrow> store \<Rightarrow> nat \<Rightarrow> string \<Rightarrow> frame" where
  "attemptFrame l ctx tlsVerify s i u0 = fst (fst (attempt l ctx tlsVerify i u0 s))"

definition attemptResult :: "lib \<Rightarrow> Context \<Rightarrow> bool \<Rightarrow> store \<Rightarrow> nat \<Rightarrow> result" where
  "attemptResult l ctx tlsVerify s i =
     (let f = attemptFrame l ctx tlsVerify s i (upstreams s ! i) in (msg f, err f))"

text \<open>The receive loop's test for a success: \<^verbatim>\<open>res.err == nil && res.msg != nil\<close>.\<close>

definition succeeded :: "result \<Rightarrow> bool" where
  "succeeded res = (snd res = None \<and> fst res \<noteq> None)"

text \<open>
  The last observed error of a sequence of results, in the spec's words: the error of
  the last result that carries one, if any does.
\<close>

definition lastObservedError :: "result list \<Rightarrow> error option" where
  "lastObservedError rs =
     (let es = List.map_filter snd rs in if es = [] then None else Some (last es))"

text \<open>
  Carrying a port, in the words of the spec's identifier grammar (\<^verbatim>\<open>host:port\<close>): the
  text after the last colon is a port number, one or more decimal digits. This is the
  most generous reading; it is compared with the test the code makes.
\<close>

definition isDigit :: "char \<Rightarrow> bool" where
  "isDigit c = (c \<in> set ''0123456789'')"

definition carriesPort :: "string \<Rightarrow> bool" where
  "carriesPort ident =
     (let port = rev (takeWhile (\<lambda>c. c \<noteq> CHR '':'') (rev ident))
      in CHR '':'' \<in> set ident \<and> port \<noteq> [] \<and> filter (\<lambda>c. \<not> isDigit c) port = [])"

text \<open>
  A device declares a key of the index when one of its IP strings parses to an address
  with that canonical text.
\<close>

definition canonical :: "netlib \<Rightarrow> string \<Rightarrow> string option" where
  "canonical nl ipStr = map_option (IPString nl) (ParseIP nl ipStr)"

definition declares :: "netlib \<Rightarrow> string \<Rightarrow> ConfigDevice \<Rightarrow> bool" where
  "declares nl key d = (Some key \<in> set (map (canonical nl) (IPs d)))"

text \<open>
  What \<^verbatim>\<open>ServeDNS\<close> does with the outcome \<open>res\<close> of the engine for the query
  \<open>r\<close>: the two branches after the call of \<^verbatim>\<open>Exchange\<close>.
\<close>

definition respond :: "Msg \<Rightarrow> result \<Rightarrow> served" where
  "respond r res =
     (case res of
        (resp, Some e) \<Rightarrow> WriteMsg (SetRcode newMsg r RcodeServerFailure)
      | (Some resp, None) \<Rightarrow> WriteMsg (resp\<lparr>MsgId := MsgId r\<rparr>)
      | (None, None) \<Rightarrow> NilDereference)"

section \<open>Concrete inputs\<close>

definition query1 :: Msg where
  "query1 = \<lparr>MsgId = 0x1234, Response = False, Opcode = 0, RecursionDesired = True,
     CheckingDisabled = False, Rcode = 0, Question = [''example.org. IN A''], Answer = []\<rparr>"

definition reply1 :: Msg where
  "reply1 = \<lparr>MsgId = 0xBEEF, Response = True, Opcode = 0, RecursionDesired = True,
     CheckingDisabled = False, Rcode = 0, Question = [''example.org. IN A''],
     Answer = [''example.org. 300 IN A 93.184.215.14'']\<rparr>"

text \<open>
  A network in which the resolver at 9.9.9.9:53 answers, every other classic exchange
  times out, and the DoH endpoint answers 503.
\<close>

definition lib1 :: lib where
  "lib1 = \<lparr>
     Pack = (\<lambda>m. Inr [0x12, 0x34]),
     NewRequestWithContext = (\<lambda>url. None),
     Do = (\<lambda>i c url body. Inr \<lparr>StatusCode = 503, Body = Inr []\<rparr>),
     Unpack = (\<lambda>b. Inl (ErrLibrary ''dns: overflow unpacking'')),
     ExchangeContext = (\<lambda>i t m addr.
        if addr = ''9.9.9.9:53'' then (Some reply1, None)
        else (None, Some (ErrLibrary (''i/o timeout: '' @ addr))))\<rparr>"

text \<open>A network in which nothing answers.\<close>

definition lib0 :: lib where
  "lib0 = \<lparr>
     Pack = (\<lambda>m. Inr [0x12, 0x34]),
     NewRequestWithContext = (\<lambda>url. None),
     Do = (\<lambda>i c url body. Inl (ErrLibrary ''context deadline exceeded'')),
     Unpack = (\<lambda>b. Inl (ErrLibrary ''dns: overflow unpacking'')),
     ExchangeContext = (\<lambda>i t m addr. (None, Some (ErrLibrary (''i/o timeout: '' @ addr))))\<rparr>"

definition store0 :: store where
  "store0 = \<lparr>upstreams = [], req = query1\<rparr>"

definition store1 :: store where
  "store1 = \<lparr>upstreams = [''1.0.0.1'', ''https://dns.example/dns-query''], req = query1\<rparr>"

definition store2 :: store where
  "store2 = \<lparr>upstreams = [''1.0.0.1'', ''9.9.9.9''], req = query1\<rparr>"

definition store3 :: store where
  "store3 = \<lparr>upstreams = [''[2620:fe::fe]''], req = query1\<rparr>"

definition ip4 :: "8 word \<Rightarrow> 8 word \<Rightarrow> 8 word \<Rightarrow> 8 word \<Rightarrow> bytes" where
  "ip4 a b c d = [0, 0, 0, 0, 0, 0, 0, 0, 0, 0, 0xFF, 0xFF, a, b, c, d]"

text \<open>
  A cut of the \<^verbatim>\<open>net\<close> package to a handful of texts: two spellings of
  192.168.0.23, one more address, and a remote address whose host carries an IPv6 zone,
  which \<^verbatim>\<open>net.ParseIP\<close> does not accept.
\<close>

definition netlib1 :: netlib where
  "netlib1 = \<lparr>
     ParseIP = map_of
       [(''192.168.0.23'', ip4 192 168 0 23),
        (''::ffff:192.168.0.23'', ip4 192 168 0 23),
        (''192.168.2.11'', ip4 192 168 2 11)],
     IPString = (\<lambda>ip.
        if ip = ip4 192 168 0 23 then ''192.168.0.23''
        else if ip = ip4 192 168 2 11 then ''192.168.2.11'' else ''?''),
     SplitHostPort = map_of
       [(''192.168.0.23:5353'', (''192.168.0.23'', ''5353'')),
        (''[fe80::1%eth0]:5353'', (''fe80::1%eth0'', ''5353''))]\<rparr>"

definition config1 :: Config where
  "config1 = \<lparr>
     Upstreams_global = [''1.0.0.1'', ''9.9.9.9''],
     Devices =
       [\<lparr>Name_c = ''old'', IPs = [''192.168.0.23'', ''not-an-ip''],
          Upstreams_c = [''1.0.0.2''], TLSVerify_c = None\<rparr>,
        \<lparr>Name_c = ''new'', IPs = [''192.168.2.11'', ''::ffff:192.168.0.23''],
          Upstreams_c = [''9.9.9.9'', ''https://dns.example/dns-query''],
          TLSVerify_c = Some False\<rparr>]\<rparr>"

definition server1 :: Server where
  "server1 = \<lparr>cfg = config1, devManager = NewManager netlib1 config1\<rparr>"

section \<open>Auxiliary facts\<close>

lemmas eval_defs = attemptResult_def attemptFrame_def attempt_def HasPrefix_def queryUDP_def
  queryDoH_def lib1_def Background_def Let_def

lemma Contains_colon: "Contains s '':'' = (CHR '':'' \<in> set s)"
  by (induction s) (auto simp: HasPrefix_def)

lemma attempt_store: "snd (attempt l ctx v i u0 s) = s"
  by (simp add: attempt_def Let_def split: prod.splits)

lemma spawn_store: "snd (spawn l ctx v i us s) = s"
proof (induction us arbitrary: i)
  case Nil
  show ?case by simp
next
  case (Cons u0 rest)
  have a: "snd (attempt l ctx v i u0 s) = s" by (rule attempt_store)
  have b: "snd (spawn l ctx v (Suc i) rest s) = s" by (rule Cons.IH)
  show ?case using a b by (auto split: prod.splits)
qed

lemma spawn_frames:
  "fst (fst (spawn l ctx v i us s)) = map (\<lambda>k. attemptFrame l ctx v s (i + k) (us ! k)) [0..<length us]"
proof (induction us arbitrary: i)
  case Nil
  show ?case by simp
next
  case (Cons u0 rest)
  have a: "snd (attempt l ctx v i u0 s) = s" by (rule attempt_store)
  have "fst (fst (spawn l ctx v i (u0 # rest) s)) =
        attemptFrame l ctx v s i u0 # fst (fst (spawn l ctx v (Suc i) rest s))"
    using a by (auto simp: attemptFrame_def split: prod.splits)
  also have "\<dots> = attemptFrame l ctx v s i u0 #
        map (\<lambda>k. attemptFrame l ctx v s (Suc i + k) (rest ! k)) [0..<length rest]"
    by (simp add: Cons.IH)
  also have "\<dots> = map (\<lambda>k. attemptFrame l ctx v s (i + k) ((u0 # rest) ! k)) [0..<length (u0 # rest)]"
    by (simp add: upt_conv_Cons map_Suc_upt[symmetric] comp_def del: upt_Suc)
  finally show ?case .
qed

lemma spawn_ops:
  "snd (fst (spawn l ctx v i us s)) =
     concat (map (\<lambda>k. snd (fst (attempt l ctx v (i + k) (us ! k) s))) [0..<length us])"
proof (induction us arbitrary: i)
  case Nil
  show ?case by simp
next
  case (Cons u0 rest)
  have a: "snd (attempt l ctx v i u0 s) = s" by (rule attempt_store)
  have "snd (fst (spawn l ctx v i (u0 # rest) s)) =
        snd (fst (attempt l ctx v i u0 s)) @ snd (fst (spawn l ctx v (Suc i) rest s))"
    using a by (auto split: prod.splits)
  also have "\<dots> = snd (fst (attempt l ctx v i u0 s)) @
        concat (map (\<lambda>k. snd (fst (attempt l ctx v (Suc i + k) (rest ! k) s))) [0..<length rest])"
    by (simp add: Cons.IH)
  also have "\<dots> = concat (map (\<lambda>k. snd (fst (attempt l ctx v (i + k) ((u0 # rest) ! k) s))) [0..<length (u0 # rest)])"
    by (simp add: upt_conv_Cons map_Suc_upt[symmetric] comp_def del: upt_Suc)
  finally show ?case .
qed

lemma recvLoop_not_nil: "recvLoop lastErr evs \<noteq> (None, None)"
proof (induction lastErr evs rule: recvLoop.induct)
  case (1 lastErr)
  show ?case by simp
next
  case (2 lastErr res evs)
  then show ?case by (cases res) auto
next
  case (3 lastErr evs)
  show ?case by simp
qed

text \<open>\<^verbatim>\<open>Exchange\<close> on a non-empty list, unfolded through the spawn loop.\<close>

lemma Exchange_nonempty:
  assumes "upstreams s \<noteq> []"
  shows "Exchange l sched ctx s v =
     ((recvLoop None (map (event_of (fst (fst (spawn l ctx v 0 (upstreams s) s)))) sched),
       snd (fst (spawn l ctx v 0 (upstreams s) s))), s)"
proof -
  have st: "snd (spawn l ctx v 0 (upstreams s) s) = s" by (rule spawn_store)
  show ?thesis using assms st by (auto simp: Exchange_def split: prod.splits)
qed

lemma events_of_order:
  assumes "set order \<subseteq> {0..<length (upstreams s)}"
  shows "map (event_of (fst (fst (spawn l ctx v 0 (upstreams s) s)))) (map Recv order) =
         map Received (map (attemptResult l ctx v s) order)"
proof -
  have "event_of (fst (fst (spawn l ctx v 0 (upstreams s) s))) (Recv i) =
        Received (attemptResult l ctx v s i)" if "i < length (upstreams s)" for i
    using that by (simp add: spawn_frames attemptResult_def Let_def)
  then show ?thesis using assms by (auto simp: subset_iff)
qed

lemma lastObservedError_Cons:
  "lastObservedError (r # rs) =
     (case lastObservedError rs of Some e \<Rightarrow> Some e | None \<Rightarrow> snd r)"
  by (cases "snd r") (auto simp: lastObservedError_def Let_def map_filter_simps split: option.splits)

lemma recvLoop_all_failed:
  "(\<And>r. r \<in> set rs \<Longrightarrow> \<not> succeeded r) \<Longrightarrow>
   recvLoop lastErr (map Received rs) =
     (None, Some (case lastObservedError rs of
                    Some e \<Rightarrow> e
                  | None \<Rightarrow> (case lastErr of Some e \<Rightarrow> e | None \<Rightarrow> ErrAllUpstreamsFailed)))"
proof (induction rs arbitrary: lastErr)
  case Nil
  show ?case by (cases lastErr) (simp_all add: lastObservedError_def)
next
  case (Cons r rs)
  have nr: "\<not> succeeded r" using Cons.prems by simp
  have step: "recvLoop lastErr (map Received (r # rs)) =
        recvLoop (if snd r \<noteq> None then snd r else lastErr) (map Received rs)"
    using nr by (auto simp: succeeded_def)
  have ih: "recvLoop (if snd r \<noteq> None then snd r else lastErr) (map Received rs) =
     (None, Some (case lastObservedError rs of
                    Some e \<Rightarrow> e
                  | None \<Rightarrow> (case (if snd r \<noteq> None then snd r else lastErr) of
                       Some e \<Rightarrow> e | None \<Rightarrow> ErrAllUpstreamsFailed)))"
    using Cons.prems by (intro Cons.IH) simp
  show ?case unfolding step ih
    by (cases "snd r"; cases "lastObservedError rs") (simp_all add: lastObservedError_Cons)
qed

lemma recvLoop_first_success:
  "(\<And>r. r \<in> set fails \<Longrightarrow> \<not> succeeded r) \<Longrightarrow> succeeded r1 \<Longrightarrow>
   recvLoop lastErr (map Received (fails @ r1 # rest)) = (fst r1, None)"
proof (induction fails arbitrary: lastErr)
  case Nil
  then show ?case by (simp add: succeeded_def)
next
  case (Cons r fails)
  have "\<not> succeeded r" using Cons.prems(1) by simp
  then have "recvLoop lastErr (map Received ((r # fails) @ r1 # rest)) =
        recvLoop (if snd r \<noteq> None then snd r else lastErr) (map Received (fails @ r1 # rest))"
    by (auto simp: succeeded_def)
  also have "\<dots> = (fst r1, None)" using Cons.prems by (intro Cons.IH) simp_all
  finally show ?case .
qed

lemma concat_upt_member:
  "i < n \<Longrightarrow> x \<in> set (f i) \<Longrightarrow> x \<in> set (concat (map f [0..<n]))"
  by auto

lemma Exchange_store: "snd (Exchange l sched ctx s v) = s"
proof (cases "upstreams s = []")
  case True
  then show ?thesis by (simp add: Exchange_def)
next
  case False
  then show ?thesis by (simp add: Exchange_nonempty)
qed

lemma Exchange_not_nil: "fst (fst (Exchange l sched ctx s v)) \<noteq> (None, None)"
proof (cases "upstreams s = []")
  case True
  then show ?thesis by (simp add: Exchange_def)
next
  case False
  then show ?thesis by (simp add: Exchange_nonempty recvLoop_not_nil)
qed

lemma SetRcode_MsgId: "MsgId (SetRcode m request rcode) = MsgId request"
  by (simp add: SetRcode_def Let_def)

lemma ServeDNS_split:
  assumes "SplitHostPort nl remoteAddr = Some (ipStr, port)"
  shows "fst (ServeDNS nl l srv order remoteAddr r) =
     respond r (fst (fst (Exchange l (map Recv order) Background
        \<lparr>upstreams = fst (determineUpstreams nl srv (ParseIP nl ipStr)), req = r\<rparr>
        (snd (determineUpstreams nl srv (ParseIP nl ipStr))))))"
proof -
  obtain ups v where du: "determineUpstreams nl srv (ParseIP nl ipStr) = (ups, v)"
    by (cases "determineUpstreams nl srv (ParseIP nl ipStr)")
  obtain res ops s where ex:
    "Exchange l (map Recv order) Background \<lparr>upstreams = ups, req = r\<rparr> v = ((res, ops), s)"
    by (cases "Exchange l (map Recv order) Background \<lparr>upstreams = ups, req = r\<rparr> v") auto
  have "s = \<lparr>upstreams = ups, req = r\<rparr>"
    using Exchange_store[of l "map Recv order" Background "\<lparr>upstreams = ups, req = r\<rparr>" v] ex
    by simp
  then have rs: "req s = r" by simp
  show ?thesis
    using assms du ex rs
    by (simp add: ServeDNS_def respond_def Let_def split: prod.splits option.splits)
qed

lemma respond_MsgId: "respond r res = WriteMsg m \<Longrightarrow> MsgId m = MsgId r"
  by (auto simp: respond_def SetRcode_MsgId split: prod.splits option.splits)

lemma respond_writes: "res \<noteq> (None, None) \<Longrightarrow> \<exists>m. respond r res = WriteMsg m"
  by (cases res) (auto simp: respond_def split: option.splits)

lemma addIPs_lookup:
  "addIPs nl dev ips m key =
     (if Some key \<in> set (map (canonical nl) ips) then Some dev else m key)"
proof (induction ips arbitrary: m)
  case Nil
  show ?case by simp
next
  case (Cons ipStr rest)
  show ?case
  proof (cases "ParseIP nl ipStr")
    case None
    then show ?thesis by (simp add: Cons.IH canonical_def)
  next
    case (Some ip)
    then show ?thesis by (auto simp: Cons.IH canonical_def)
  qed
qed

lemma addDevices_lookup:
  "addDevices nl ds m key =
     (let fs = filter (declares nl key) ds
      in if fs = [] then m key else Some (newDevice (last fs)))"
proof (induction ds arbitrary: m)
  case Nil
  show ?case by simp
next
  case (Cons d ds)
  show ?case
    by (simp add: Cons.IH addIPs_lookup declares_def Let_def)
qed

lemma addIPs_range:
  "addIPs nl dev ips m key = Some v \<Longrightarrow> v = dev \<or> m key = Some v"
  by (simp add: addIPs_lookup split: if_splits)

lemma addDevices_range:
  "addDevices nl ds m key = Some v \<Longrightarrow> (\<exists>d\<in>set ds. v = newDevice d) \<or> m key = Some v"
proof (induction ds arbitrary: m)
  case Nil
  then show ?case by simp
next
  case (Cons d ds)
  from Cons.prems have "addDevices nl ds (addIPs nl (newDevice d) (IPs d) m) key = Some v"
    by simp
  then have "(\<exists>d\<in>set ds. v = newDevice d) \<or> addIPs nl (newDevice d) (IPs d) m key = Some v"
    by (rule Cons.IH)
  then show ?case using addIPs_range by fastforce
qed

lemmas serve_defs = ServeDNS_def netlib1_def server1_def config1_def NewManager_def newDevice_def
  determineUpstreams_def Get_def Exchange_def attempt_def HasPrefix_def queryUDP_def queryDoH_def
  Background_def ip4_def Let_def

text \<open>
  The value returned when an attempt succeeds: the receive loop returns the message of the
  first success in the order of arrival, and the cancellation error as soon as it takes the
  case of the context being done.
\<close>

lemma Exchange_first_success:
  assumes "set (fails @ k # rest) \<subseteq> {0..<length (upstreams s)}"
    and "\<And>i. i \<in> set fails \<Longrightarrow> \<not> succeeded (attemptResult l ctx v s i)"
    and "succeeded (attemptResult l ctx v s k)"
  shows "fst (fst (Exchange l (map Recv (fails @ k # rest)) ctx s v)) =
           (fst (attemptResult l ctx v s k), None)"
proof -
  have ne: "upstreams s \<noteq> []" using assms(1) by auto
  have ev: "map (event_of (fst (fst (spawn l ctx v 0 (upstreams s) s)))) (map Recv (fails @ k # rest)) =
         map Received (map (attemptResult l ctx v s) fails @ attemptResult l ctx v s k #
           map (attemptResult l ctx v s) rest)"
    using events_of_order[OF assms(1), of l ctx v] by simp
  have "recvLoop None (map Received (map (attemptResult l ctx v s) fails @
           attemptResult l ctx v s k # map (attemptResult l ctx v s) rest)) =
        (fst (attemptResult l ctx v s k), None)"
    by (rule recvLoop_first_success) (use assms(2,3) in auto)
  then show ?thesis unfolding Exchange_nonempty[OF ne] ev by simp
qed

lemma Exchange_caller_done:
  assumes "upstreams s \<noteq> []"
  shows "fst (fst (Exchange l (Done # sched) ctx s v)) = (None, Some ErrContext)"
  by (simp add: Exchange_nonempty[OF assms])

section \<open>Exchange engine: every attempt fails\<close>

text \<open>
  Claim C3. A call of \<^verbatim>\<open>Exchange\<close> with a non-empty upstream list in which every
  attempt fails returns no message, and as its error the last observed error among the
  attempts (the error of the last result received that carries one), or the generic
  ``all upstreams failed'' error when no attempt set an error. The race runs to its end:
  the caller's context is not done, so the receive loop reads the result of every attempt,
  in the order \<open>order\<close> of their arrival, and then finds the channel closed.
\<close>

theorem Exchange_all_failed:
  assumes "upstreams s \<noteq> []"
    and "mset order = mset [0..<length (upstreams s)]"
    and "\<forall>i<length (upstreams s). \<not> succeeded (attemptResult l ctx v s i)"
  shows "fst (fst (Exchange l (map Recv order) ctx s v)) =
     (None, Some (case lastObservedError (map (attemptResult l ctx v s) order) of
                    Some e \<Rightarrow> e | None \<Rightarrow> ErrAllUpstreamsFailed))"
proof -
  have so: "set order = {0..<length (upstreams s)}"
    using assms(2) by (metis mset_eq_setD set_upt)
  have ev: "map (event_of (fst (fst (spawn l ctx v 0 (upstreams s) s)))) (map Recv order) =
         map Received (map (attemptResult l ctx v s) order)"
    using so by (intro events_of_order) simp
  have nf: "\<not> succeeded r" if "r \<in> set (map (attemptResult l ctx v s) order)" for r
    using that so assms(3) by auto
  have "recvLoop None (map Received (map (attemptResult l ctx v s) order)) =
     (None, Some (case lastObservedError (map (attemptResult l ctx v s) order) of
                    Some e \<Rightarrow> e
                  | None \<Rightarrow> (case None of Some e \<Rightarrow> e | None \<Rightarrow> ErrAllUpstreamsFailed)))"
    by (rule recvLoop_all_failed) (rule nf)
  then show ?thesis
    unfolding Exchange_nonempty[OF assms(1)] ev by (simp split: option.split)
qed

theorem Exchange_all_failed_witness:
  "upstreams store1 \<noteq> [] \<and> mset [1, 0] = mset [0..<length (upstreams store1)] \<and>
   \<not> succeeded (attemptResult lib1 Background True store1 0) \<and>
   \<not> succeeded (attemptResult lib1 Background True store1 1) \<and>
   fst (fst (Exchange lib1 (map Recv [1, 0]) Background store1 True)) =
     (None, Some (ErrLibrary ''i/o timeout: 1.0.0.1:53''))"
proof -
  have r0: "attemptResult lib1 Background True store1 0 =
              (None, Some (ErrLibrary ''i/o timeout: 1.0.0.1:53''))"
    by (simp add: eval_defs store1_def)
  have r1: "attemptResult lib1 Background True store1 1 = (None, Some (ErrDoHStatus 503))"
    by (simp add: eval_defs store1_def)
  have h1: "upstreams store1 \<noteq> []" by (simp add: store1_def)
  have len: "length (upstreams store1) = 2" by (simp add: store1_def)
  have h2: "mset [1, 0] = mset [0..<length (upstreams store1)]"
    unfolding len by (simp add: upt_conv_Cons)
  have h3: "\<forall>i<length (upstreams store1). \<not> succeeded (attemptResult lib1 Background True store1 i)"
    unfolding len using r0 r1 by (auto simp: succeeded_def less_Suc_eq numeral_2_eq_2)
  have "lastObservedError (map (attemptResult lib1 Background True store1) [1, 0]) =
          Some (ErrLibrary ''i/o timeout: 1.0.0.1:53'')"
    by (simp add: r0 r1[unfolded One_nat_def] lastObservedError_def map_filter_simps)
  then show ?thesis
    using Exchange_all_failed[OF h1 h2 h3] h1 h2 r0 r1 by (simp add: succeeded_def)
qed

section \<open>Exchange engine: no upstreams\<close>

text \<open>
  Claim C2. A call of \<^verbatim>\<open>Exchange\<close> with an empty upstream list fails at once with
  the ``no upstreams provided'' error: no goroutine is started, no adapter is invoked, and
  the log of operations holds no network call. The store comes back as it was.
\<close>

theorem Exchange_no_upstreams:
  assumes "upstreams s = []"
  shows "Exchange l sched ctx s tlsVerify = (((None, Some ErrNoUpstreams), []), s) \<and>
         filter is_network_call (snd (fst (Exchange l sched ctx s tlsVerify))) = []"
  using assms by (simp add: Exchange_def)

theorem Exchange_no_upstreams_witness:
  "upstreams store0 = [] \<and>
   Exchange lib1 [Recv 0] Background store0 True = (((None, Some ErrNoUpstreams), []), store0)"
  using Exchange_no_upstreams[where s = store0 and l = lib1 and sched = "[Recv 0]"
      and ctx = Background and tlsVerify = True]
  by (simp add: store0_def)

section \<open>Exchange engine: the default port\<close>

text \<open>
  Claim C6, as amended. For an upstream identifier that is not an \<^verbatim>\<open>http://\<close> or
  \<^verbatim>\<open>https://\<close> URL, \<^verbatim>\<open>Exchange\<close> invokes the classic adapter with the identifier
  followed by \<^verbatim>\<open>:53\<close> when the identifier contains no colon, and with the identifier
  as it is when it contains one, whether or not what follows the colon is a port.
\<close>

theorem Exchange_default_port:
  assumes "i < length (upstreams s)"
    and "\<not> HasPrefix (upstreams s ! i) ''https://''"
    and "\<not> HasPrefix (upstreams s ! i) ''http://''"
  shows "let ident = upstreams s ! i;
             addr = (if CHR '':'' \<in> set ident then ident else ident @ '':53'');
             t = (case Deadline ctx of Some d \<Rightarrow> UntilDeadline d | None \<Rightarrow> FiveSeconds)
         in attemptResult l ctx tlsVerify s i = ExchangeContext l i t (req s) addr \<and>
            OpExchangeContext t addr \<in> set (snd (fst (Exchange l sched ctx s tlsVerify)))"
proof -
  define ident where "ident = upstreams s ! i"
  define addr where "addr = (if CHR '':'' \<in> set ident then ident else ident @ '':53'')"
  define t where "t = (case Deadline ctx of Some d \<Rightarrow> UntilDeadline d | None \<Rightarrow> FiveSeconds)"
  have ne: "upstreams s \<noteq> []" using assms(1) by auto
  have at: "fst (attempt l ctx tlsVerify i ident s) =
      (\<lparr>u = addr, msg = fst (ExchangeContext l i t (req s) addr),
         err = snd (ExchangeContext l i t (req s) addr)\<rparr>, [OpExchangeContext t addr])"
    using assms(2,3)
    by (simp add: attempt_def queryUDP_def Contains_colon ident_def addr_def t_def Let_def)
  have res: "attemptResult l ctx tlsVerify s i = ExchangeContext l i t (req s) addr"
    using at by (simp add: attemptResult_def attemptFrame_def Let_def ident_def)
  have "OpExchangeContext t addr \<in> set (snd (fst (attempt l ctx tlsVerify (0 + i) (upstreams s ! i) s)))"
    using at by (simp add: ident_def)
  then have "OpExchangeContext t addr \<in> set (snd (fst (spawn l ctx tlsVerify 0 (upstreams s) s)))"
    unfolding spawn_ops using assms(1) by (intro concat_upt_member)
  then have ops: "OpExchangeContext t addr \<in> set (snd (fst (Exchange l sched ctx s tlsVerify)))"
    by (simp add: Exchange_nonempty[OF ne])
  show ?thesis using res ops unfolding addr_def t_def ident_def Let_def by simp
qed

theorem Exchange_default_port_witness:
  "1 < length (upstreams store2) \<and> \<not> HasPrefix (upstreams store2 ! 1) ''https://'' \<and>
   \<not> HasPrefix (upstreams store2 ! 1) ''http://'' \<and> upstreams store2 ! 1 = ''9.9.9.9'' \<and>
   attemptResult lib1 Background True store2 1 = (Some reply1, None) \<and>
   OpExchangeContext FiveSeconds ''9.9.9.9:53''
     \<in> set (snd (fst (Exchange lib1 [Recv 1] Background store2 True)))"
proof -
  have h1: "1 < length (upstreams store2)" by (simp add: store2_def)
  have h2: "\<not> HasPrefix (upstreams store2 ! 1) ''https://''" by (simp add: store2_def HasPrefix_def)
  have h3: "\<not> HasPrefix (upstreams store2 ! 1) ''http://''" by (simp add: store2_def HasPrefix_def)
  have id: "upstreams store2 ! 1 = ''9.9.9.9''" by (simp add: store2_def)
  have th: "attemptResult lib1 Background True store2 1 =
        ExchangeContext lib1 1 FiveSeconds (req store2) ''9.9.9.9:53'' \<and>
      OpExchangeContext FiveSeconds ''9.9.9.9:53''
        \<in> set (snd (fst (Exchange lib1 [Recv 1] Background store2 True)))"
    using Exchange_default_port[OF h1 h2 h3, where l = lib1 and ctx = Background
        and tlsVerify = True and sched = "[Recv 1]"]
    unfolding id Let_def by (simp add: Background_def)
  have ex: "ExchangeContext lib1 1 FiveSeconds (req store2) ''9.9.9.9:53'' = (Some reply1, None)"
    by (simp add: lib1_def)
  show ?thesis using th h1 h2 h3 id unfolding ex by blast
qed

text \<open>
  The claim as stated speaks of identifiers that lack a port. The bracketed IPv6 literal
  \<^verbatim>\<open>[2620:fe::fe]\<close> is no URL and carries no port, yet it contains a colon: the
  classic adapter is invoked with it unchanged, not with \<^verbatim>\<open>[2620:fe::fe]:53\<close>.
\<close>

theorem Exchange_port_counterexample:
  "\<not> HasPrefix ''[2620:fe::fe]'' ''https://'' \<and> \<not> HasPrefix ''[2620:fe::fe]'' ''http://'' \<and>
   \<not> carriesPort ''[2620:fe::fe]'' \<and>
   upstreams store3 = [''[2620:fe::fe]''] \<and>
   snd (fst (Exchange lib1 [Recv 0] Background store3 True)) =
     [OpExchangeContext FiveSeconds ''[2620:fe::fe]''] \<and>
   OpExchangeContext FiveSeconds ''[2620:fe::fe]:53''
     \<notin> set (snd (fst (Exchange lib1 [Recv 0] Background store3 True)))"
  by (simp add: Exchange_def store3_def eval_defs carriesPort_def isDigit_def)

section \<open>DoH adapter: a status other than 200\<close>

text \<open>
  Claim C8. When the HTTPS endpoint answers a DoH call with a status other than 200 (the
  query packed, the request built and sent without error), \<^verbatim>\<open>queryDoH\<close> returns no
  message and the error ``DoH server returned status'' with that status; the body of the
  response is neither read nor unpacked.
\<close>

theorem queryDoH_status_not_200:
  assumes "Pack l q = Inr packed"
    and "NewRequestWithContext l urlStr = None"
    and "Do l i (if \<not> tlsVerify then httpClientInsecure else httpClientVerify) urlStr packed = Inr resp"
    and "StatusCode resp \<noteq> 200"
  shows "fst (queryDoH l ctx i q urlStr tlsVerify) =
           (None, Some (ErrDoHStatus (StatusCode resp))) \<and>
         OpReadAll \<notin> set (snd (queryDoH l ctx i q urlStr tlsVerify)) \<and>
         OpUnpack \<notin> set (snd (queryDoH l ctx i q urlStr tlsVerify))"
  using assms by (simp add: queryDoH_def Let_def)

theorem queryDoH_status_not_200_witness:
  "Pack lib1 query1 = Inr [0x12, 0x34] \<and>
   NewRequestWithContext lib1 ''https://dns.example/dns-query'' = None \<and>
   Do lib1 0 httpClientVerify ''https://dns.example/dns-query'' [0x12, 0x34] =
     Inr \<lparr>StatusCode = 503, Body = Inr []\<rparr> \<and>
   fst (queryDoH lib1 Background 0 query1 ''https://dns.example/dns-query'' True) =
     (None, Some (ErrDoHStatus 503))"
proof -
  have h1: "Pack lib1 query1 = Inr [0x12, 0x34]" by (simp add: lib1_def)
  have h2: "NewRequestWithContext lib1 ''https://dns.example/dns-query'' = None"
    by (simp add: lib1_def)
  have h3: "Do lib1 0 (if \<not> True then httpClientInsecure else httpClientVerify)
       ''https://dns.example/dns-query'' [0x12, 0x34] = Inr \<lparr>StatusCode = 503, Body = Inr []\<rparr>"
    by (simp add: lib1_def)
  have h4: "StatusCode \<lparr>StatusCode = 503, Body = Inr []\<rparr> \<noteq> 200" by simp
  show ?thesis
    using queryDoH_status_not_200[OF h1 h2 h3 h4, where ctx = Background] h1 h2 h3 by simp
qed

section \<open>Exchange engine: the inputs are left as they were\<close>

text \<open>
  Claim C9. \<^verbatim>\<open>Exchange\<close> writes neither the caller's upstream slice nor the query
  message: the store it returns is the store it was given, elements of the slice and
  message alike, and so is the store after any single attempt. Appending \<^verbatim>\<open>:53\<close>
  changes the local \<open>u\<close> of the attempt's frame only.
\<close>

theorem Exchange_frame:
  "snd (Exchange l sched ctx s tlsVerify) = s \<and>
   upstreams (snd (Exchange l sched ctx s tlsVerify)) = upstreams s \<and>
   req (snd (Exchange l sched ctx s tlsVerify)) = req s \<and>
   snd (attempt l ctx tlsVerify i u0 s) = s"
  by (simp add: Exchange_store attempt_store)

theorem Exchange_frame_witness:
  "snd (Exchange lib1 [Recv 1] Background store2 True) = store2 \<and>
   upstreams (snd (Exchange lib1 [Recv 1] Background store2 True)) = [''1.0.0.1'', ''9.9.9.9''] \<and>
   req (snd (Exchange lib1 [Recv 1] Background store2 True)) = query1 \<and>
   u (attemptFrame lib1 Background True store2 1 ''9.9.9.9'') = ''9.9.9.9:53'' \<and>
   snd (attempt lib1 Background True 1 ''9.9.9.9'' store2) = store2"
proof -
  have loc: "u (attemptFrame lib1 Background True store2 1 ''9.9.9.9'') = ''9.9.9.9:53''"
    by (simp add: eval_defs)
  have st: "upstreams store2 = [''1.0.0.1'', ''9.9.9.9''] \<and> req store2 = query1"
    by (simp add: store2_def)
  show ?thesis
    using Exchange_frame[of lib1 "[Recv 1]" Background store2 True 1 "''9.9.9.9''"] loc st
    by simp
qed

section \<open>Device index: last write wins\<close>

text \<open>
  Claim C5. For every configuration, looking a client IP up in the device index returns
  the policy of the last device, in configuration order, among those that declare that IP
  (one of their IP strings parses to an address with the same canonical text), and none
  when no device declares it; a nil IP finds none.
\<close>

theorem Get_last_write_wins:
  "Get nl (NewManager nl config) (Some ip) =
     (let ds = filter (declares nl (IPString nl ip)) (Devices config)
      in if ds = [] then None else Some (newDevice (last ds))) \<and>
   Get nl (NewManager nl config) None = None"
  by (simp add: Get_def NewManager_def addDevices_lookup)

theorem Get_last_write_wins_witness:
  "Get netlib1 (NewManager netlib1 config1) (Some (ip4 192 168 0 23)) =
     Some \<lparr>Name = ''new'', Upstreams = [''9.9.9.9'', ''https://dns.example/dns-query''],
            TLSVerify = False\<rparr> \<and>
   Get netlib1 (NewManager netlib1 config1) (Some (ip4 10 0 0 1)) = None \<and>
   Get netlib1 (NewManager netlib1 config1) None = None"
proof -
  have a: "filter (declares netlib1 (IPString netlib1 (ip4 192 168 0 23))) (Devices config1) =
           Devices config1"
    by (simp add: declares_def canonical_def netlib1_def config1_def ip4_def)
  have b: "filter (declares netlib1 (IPString netlib1 (ip4 10 0 0 1))) (Devices config1) = []"
    by (simp add: declares_def canonical_def netlib1_def config1_def ip4_def)
  have c: "newDevice (last (Devices config1)) =
     \<lparr>Name = ''new'', Upstreams = [''9.9.9.9'', ''https://dns.example/dns-query''],
       TLSVerify = False\<rparr>"
    by (simp add: config1_def newDevice_def)
  have d: "Devices config1 \<noteq> []" by (simp add: config1_def)
  show ?thesis
    using Get_last_write_wins[of netlib1 config1 "ip4 192 168 0 23"]
      Get_last_write_wins[of netlib1 config1 "ip4 10 0 0 1"]
    unfolding a b Let_def using c d by simp
qed

section \<open>Device index: the TLS-verify flag\<close>

text \<open>
  Claim C7. The policy built for a configured device holds the resolved TLS-verify flag:
  true when the optional \<^verbatim>\<open>tls-verify\<close> setting is absent, the configured value
  otherwise. Every policy stored in the index at construction is the policy built for one
  of the configured devices, so it holds that device's resolved flag.
\<close>

theorem NewManager_TLSVerify:
  "TLSVerify (newDevice d) = (case TLSVerify_c d of None \<Rightarrow> True | Some b \<Rightarrow> b) \<and>
   (\<forall>key dev. ipMap (NewManager nl config) key = Some dev \<longrightarrow>
      (\<exists>d'\<in>set (Devices config). dev = newDevice d' \<and>
         TLSVerify dev = (case TLSVerify_c d' of None \<Rightarrow> True | Some b \<Rightarrow> b)))"
proof -
  have a: "TLSVerify (newDevice d') = (case TLSVerify_c d' of None \<Rightarrow> True | Some b \<Rightarrow> b)" for d'
    by (simp add: newDevice_def Let_def split: option.splits)
  have b: "\<exists>d'\<in>set (Devices config). dev = newDevice d'"
    if "ipMap (NewManager nl config) key = Some dev" for key dev
    using addDevices_range[of nl "Devices config" Map.empty key dev] that
    by (simp add: NewManager_def)
  show ?thesis using a b by blast
qed

theorem NewManager_TLSVerify_witness:
  "TLSVerify_c (Devices config1 ! 0) = None \<and> TLSVerify (newDevice (Devices config1 ! 0)) \<and>
   TLSVerify_c (Devices config1 ! 1) = Some False \<and>
   \<not> TLSVerify (newDevice (Devices config1 ! 1)) \<and>
   ipMap (NewManager netlib1 config1) ''192.168.2.11'' = Some (newDevice (Devices config1 ! 1)) \<and>
   (\<exists>d'\<in>set (Devices config1). newDevice (Devices config1 ! 1) = newDevice d' \<and>
      TLSVerify (newDevice (Devices config1 ! 1)) =
        (case TLSVerify_c d' of None \<Rightarrow> True | Some b \<Rightarrow> b))"
proof -
  have c0: "TLSVerify_c (Devices config1 ! 0) = None" by (simp add: config1_def)
  have c1: "TLSVerify_c (Devices config1 ! 1) = Some False" by (simp add: config1_def)
  have m: "ipMap (NewManager netlib1 config1) ''192.168.2.11'' =
           Some (newDevice (Devices config1 ! 1))"
    by (simp add: NewManager_def config1_def netlib1_def ip4_def)
  have t0: "TLSVerify (newDevice (Devices config1 ! 0))"
    using NewManager_TLSVerify[of "Devices config1 ! 0" netlib1 config1] c0 by simp
  have t1: "\<not> TLSVerify (newDevice (Devices config1 ! 1))"
    using NewManager_TLSVerify[of "Devices config1 ! 1" netlib1 config1] c1 by simp
  have ex: "\<exists>d'\<in>set (Devices config1). newDevice (Devices config1 ! 1) = newDevice d' \<and>
      TLSVerify (newDevice (Devices config1 ! 1)) =
        (case TLSVerify_c d' of None \<Rightarrow> True | Some b \<Rightarrow> b)"
    using NewManager_TLSVerify[of "Devices config1 ! 1" netlib1 config1] m by blast
  show ?thesis using c0 c1 m t0 t1 ex by blast
qed

section \<open>Request router: the transaction identifier\<close>

text \<open>
  Claim C4. Whenever the router writes a response to a query, on the success path (the
  engine's message with its identifier overwritten) as on the failure path (the
  server-failure reply built by \<^verbatim>\<open>SetRcode\<close>), the transaction identifier of the
  response is that of the query.
\<close>

theorem ServeDNS_transaction_id:
  assumes "fst (ServeDNS nl l srv order remoteAddr r) = WriteMsg m"
  shows "MsgId m = MsgId r"
proof (cases "SplitHostPort nl remoteAddr")
  case None
  then show ?thesis using assms by (simp add: ServeDNS_def)
next
  case (Some hp)
  obtain ipStr port where hp: "hp = (ipStr, port)" by (cases hp)
  show ?thesis
    using assms ServeDNS_split[of nl remoteAddr ipStr port l srv order r] Some hp
    by (auto dest: respond_MsgId)
qed

theorem ServeDNS_transaction_id_witness:
  "fst (ServeDNS netlib1 lib1 server1 [1, 0] ''192.168.0.23:5353'' query1) =
     WriteMsg (reply1\<lparr>MsgId := 0x1234\<rparr>) \<and>
   MsgId (reply1\<lparr>MsgId := 0x1234\<rparr>) = MsgId query1 \<and>
   fst (ServeDNS netlib1 lib0 server1 [1, 0] ''192.168.0.23:5353'' query1) =
     WriteMsg (SetRcode newMsg query1 RcodeServerFailure) \<and>
   MsgId (SetRcode newMsg query1 RcodeServerFailure) = MsgId query1 \<and>
   MsgId query1 = 0x1234 \<and> MsgId reply1 = 0xBEEF"
proof -
  have ok: "fst (ServeDNS netlib1 lib1 server1 [1, 0] ''192.168.0.23:5353'' query1) =
     WriteMsg (reply1\<lparr>MsgId := 0x1234\<rparr>)"
    by (simp add: serve_defs lib1_def query1_def)
  have fl: "fst (ServeDNS netlib1 lib0 server1 [1, 0] ''192.168.0.23:5353'' query1) =
     WriteMsg (SetRcode newMsg query1 RcodeServerFailure)"
    by (simp add: serve_defs lib0_def)
  have ids: "MsgId query1 = 0x1234 \<and> MsgId reply1 = 0xBEEF"
    by (simp add: query1_def reply1_def)
  show ?thesis
    using ok fl ids ServeDNS_transaction_id[OF ok] ServeDNS_transaction_id[OF fl] by simp
qed

section \<open>Request router: a remote host that is no IP address\<close>

text \<open>
  Claim C10. When the remote address splits into host and port but the host does not
  parse as an IP address, the router does not drop the query: the lookup with the nil IP
  finds no device, the engine is called with the global upstream list and TLS
  verification on, and a response is written to the client (the engine's answer, or the
  server-failure reply).
\<close>

theorem ServeDNS_unparsable_host:
  assumes "SplitHostPort nl remoteAddr = Some (host, port)"
    and "ParseIP nl host = None"
  shows "Get nl (devManager srv) (ParseIP nl host) = None \<and>
         determineUpstreams nl srv (ParseIP nl host) = (Upstreams_global (cfg srv), True) \<and>
         fst (ServeDNS nl l srv order remoteAddr r) =
           respond r (fst (fst (Exchange l (map Recv order) Background
              \<lparr>upstreams = Upstreams_global (cfg srv), req = r\<rparr> True))) \<and>
         (\<exists>m. fst (ServeDNS nl l srv order remoteAddr r) = WriteMsg m)"
proof -
  have g: "Get nl (devManager srv) (ParseIP nl host) = None"
    using assms(2) by (simp add: Get_def)
  have du: "determineUpstreams nl srv (ParseIP nl host) = (Upstreams_global (cfg srv), True)"
    using g by (simp add: determineUpstreams_def)
  have sv: "fst (ServeDNS nl l srv order remoteAddr r) =
           respond r (fst (fst (Exchange l (map Recv order) Background
              \<lparr>upstreams = Upstreams_global (cfg srv), req = r\<rparr> True)))"
    using ServeDNS_split[OF assms(1), of l srv order r] du by simp
  have "\<exists>m. fst (ServeDNS nl l srv order remoteAddr r) = WriteMsg m"
    unfolding sv by (rule respond_writes) (rule Exchange_not_nil)
  then show ?thesis using g du sv by blast
qed

theorem ServeDNS_unparsable_host_witness:
  "SplitHostPort netlib1 ''[fe80::1%eth0]:5353'' = Some (''fe80::1%eth0'', ''5353'') \<and>
   ParseIP netlib1 ''fe80::1%eth0'' = None \<and>
   determineUpstreams netlib1 server1 (ParseIP netlib1 ''fe80::1%eth0'') =
     ([''1.0.0.1'', ''9.9.9.9''], True) \<and>
   fst (ServeDNS netlib1 lib1 server1 [0, 1] ''[fe80::1%eth0]:5353'' query1) =
     WriteMsg (reply1\<lparr>MsgId := 0x1234\<rparr>)"
proof -
  have h1: "SplitHostPort netlib1 ''[fe80::1%eth0]:5353'' = Some (''fe80::1%eth0'', ''5353'')"
    by (simp add: netlib1_def)
  have h2: "ParseIP netlib1 ''fe80::1%eth0'' = None"
    by (simp add: netlib1_def)
  have g: "Upstreams_global (cfg server1) = [''1.0.0.1'', ''9.9.9.9'']"
    by (simp add: server1_def config1_def)
  have ex: "respond query1 (fst (fst (Exchange lib1 (map Recv [0, 1]) Background
              \<lparr>upstreams = [''1.0.0.1'', ''9.9.9.9''], req = query1\<rparr> True))) =
            WriteMsg (reply1\<lparr>MsgId := 0x1234\<rparr>)"
    by (simp add: respond_def Exchange_def attempt_def HasPrefix_def queryUDP_def Background_def
        lib1_def query1_def Let_def)
  show ?thesis
    using ServeDNS_unparsable_host[OF h1 h2, of server1 lib1 "[0, 1]" query1] h1 h2
    unfolding g ex by simp
qed

end
